theory Spec2Isabelle
  imports Complex_Main "HOL-Library.Word" "HOL-Library.Sublist"
begin

section \<open>Cluster quantification in binary masks (quantify\_clusters.py)\<close>

text \<open>
  The script reads cluster centres from a Picasso hdf5 file, rescales them to the pixel
  grid of a mask image, and counts the centres that fall on non-zero pixels of every mask
  of a directory. The embedding follows the Python functions one by one. NumPy, h5py
  and Pillow are libraries: what the script uses of them is modelled here from their
  documented behaviour.
\<close>

subsection \<open>Values and errors\<close>

text \<open>
  The exceptions the script can meet. The script itself has no \<^verbatim>\<open>raise\<close> and no
  \<^verbatim>\<open>try\<close>: every exception comes from a library call or from Python's indexing and
  unpacking, and propagates to the top.
\<close>

datatype py_error =
    IndexError | KeyError | ValueError | OverflowError | TypeError | OSError
  | FileNotFoundError | UnidentifiedImageError

text \<open>
  A NumPy floating-point scalar: a finite value, an infinity or NaN. A finite binary
  float is a rational number, so finite values are rationals. Arithmetic on finite
  values is exact here: the rounding error and the overflow of binary floating point are
  outside the model.
\<close>

datatype np_float = Finite rat | PosInf | NegInf | NaN

text \<open>Multiplication and true division of a float by a finite scalar (IEEE 754).\<close>

fun np_mul :: "np_float \<Rightarrow> rat \<Rightarrow> np_float" where
  "np_mul (Finite a) k = Finite (a * k)"
| "np_mul PosInf k = (if k = 0 then NaN else if 0 < k then PosInf else NegInf)"
| "np_mul NegInf k = (if k = 0 then NaN else if 0 < k then NegInf else PosInf)"
| "np_mul NaN k = NaN"

text \<open>
  NumPy does not raise on a division by zero: it warns and returns an infinity, or NaN
  for \<open>0 / 0\<close>.
\<close>

fun np_truediv :: "np_float \<Rightarrow> rat \<Rightarrow> np_float" where
  "np_truediv (Finite a) k =
     (if k = 0 then (if a = 0 then NaN else if 0 < a then PosInf else NegInf)
      else Finite (a / k))"
| "np_truediv PosInf k = (if 0 \<le> k then PosInf else NegInf)"
| "np_truediv NegInf k = (if 0 \<le> k then NegInf else PosInf)"
| "np_truediv NaN k = NaN"

text \<open>
  \<^verbatim>\<open>np.round\<close> rounds to the nearest integer and a tie to the even neighbour;
  \<^verbatim>\<open>int(...)\<close> of the result is exact on a finite value, raises ValueError on NaN and
  OverflowError on an infinity.
\<close>

definition round_half_even :: "rat \<Rightarrow> int" where
  "round_half_even q =
     (let f = \<lfloor>q\<rfloor>; d = q - of_int f
      in if d < 1 / 2 then f
         else if 1 / 2 < d then f + 1
         else if even f then f else f + 1)"

fun int_np_round :: "np_float \<Rightarrow> py_error + int" where
  "int_np_round (Finite q) = Inr (round_half_even q)"
| "int_np_round NaN = Inl ValueError"
| "int_np_round PosInf = Inl OverflowError"
| "int_np_round NegInf = Inl OverflowError"

text \<open>
  Indexing one axis with a Python integer: an index from \<open>-n\<close> to \<open>-1\<close> counts from the
  end, an index outside \<open>-n \<le> i < n\<close> raises IndexError.
\<close>

definition getitem :: "'a list \<Rightarrow> int \<Rightarrow> py_error + 'a" where
  "getitem xs i =
     (if 0 \<le> i \<and> i < int (length xs) then Inr (xs ! nat i)
      else if i < 0 \<and> - int (length xs) \<le> i then Inr (xs ! nat (int (length xs) + i))
      else Inl IndexError)"

subsection \<open>Masks and cluster points\<close>

text \<open>
  A mask is the array \<^verbatim>\<open>np.array(img)\<close> of an image of mode L: rows of unsigned
  8-bit pixels. The variable \<open>mask\<close> of the source is written \<open>msk\<close> here, since
  \<open>mask\<close> is a constant of the word library. A cluster point is one row \<open>(x, y)\<close> of
  the coordinate array.
\<close>

type_synonym pixel = "8 word"
type_synonym binary_mask = "pixel list list"
type_synonym cluster_point = "np_float \<times> np_float"

definition PX_SIZE_MEASUREMENT :: int where
  "PX_SIZE_MEASUREMENT = 108"

definition PX_SIZE_CLUSTERS :: int where
  "PX_SIZE_CLUSTERS = 10"

text \<open>An array of \<open>r\<close> rows and \<open>c\<close> columns.\<close>

definition has_shape :: "'a list list \<Rightarrow> nat \<Rightarrow> nat \<Rightarrow> bool" where
  "has_shape m r c \<longleftrightarrow> length m = r \<and> list_all (\<lambda>row. length row = c) m"

subsection \<open>get\_cluster\_count\<close>

text \<open>
  The loop of \<^verbatim>\<open>get_cluster_count\<close>, with its two variables \<open>count\<close> and
  \<open>locs_mask\<close>. One iteration converts \<open>xy[0]\<close> and then \<open>xy[1]\<close>, reads
  \<^verbatim>\<open>mask[x][y]\<close> (first the row, then the cell) and appends \<open>[x, y]\<close> when the
  cell is not zero. An exception leaves the loop and the function.
\<close>

fun cluster_loop ::
  "binary_mask \<Rightarrow> cluster_point list \<Rightarrow> nat \<Rightarrow> (int \<times> int) list \<Rightarrow> py_error + (nat \<times> (int \<times> int) list)"
where
  "cluster_loop msk [] count locs_mask = Inr (count, locs_mask)"
| "cluster_loop msk (xy # rest) count locs_mask =
     (case int_np_round (fst xy) of Inl e \<Rightarrow> Inl e | Inr x \<Rightarrow>
     (case int_np_round (snd xy) of Inl e \<Rightarrow> Inl e | Inr y \<Rightarrow>
     (case getitem msk x of Inl e \<Rightarrow> Inl e | Inr row \<Rightarrow>
     (case getitem row y of Inl e \<Rightarrow> Inl e | Inr v \<Rightarrow>
        if v \<noteq> 0 then cluster_loop msk rest (count + 1) (locs_mask @ [(x, y)])
        else cluster_loop msk rest count locs_mask))))"

definition get_cluster_count ::
  "binary_mask \<Rightarrow> cluster_point list \<Rightarrow> py_error + (nat \<times> (int \<times> int) list)"
where
  "get_cluster_count msk clusters_xy = cluster_loop msk clusters_xy 0 []"

subsection \<open>get\_mask\_area\<close>

text \<open>
  \<^verbatim>\<open>np.where(mask > 0, 1, mask)\<close> builds a new array; \<^verbatim>\<open>np.sum\<close> adds its
  cells in the platform's 64-bit unsigned integer, which no image that Pillow opens can
  overflow, so the sum is a natural number.
\<close>

definition np_where_gt0 :: "binary_mask \<Rightarrow> binary_mask" where
  "np_where_gt0 msk = map (map (\<lambda>v. if 0 < v then 1 else v)) msk"

definition np_sum :: "binary_mask \<Rightarrow> nat" where
  "np_sum msk = sum_list (map (\<lambda>row. sum_list (map unat row)) msk)"

definition get_mask_area :: "binary_mask \<Rightarrow> nat \<times> rat" where
  "get_mask_area msk =
     (let msk' = np_where_gt0 msk;
          area_px = np_sum msk';
          area_um = of_nat area_px * (of_int PX_SIZE_CLUSTERS / 1000) ^ 2
      in (area_px, area_um))"

subsection \<open>Files\<close>

text \<open>
  What a path leads to: an hdf5 container (its datasets by name, a compound dataset as
  its columns by field name), an image as Pillow decodes it (rows of pixels of the
  image's own mode), or anything else. A directory is the list of its file names in the
  order of \<^verbatim>\<open>os.listdir\<close>, each with its content.
\<close>

type_synonym h5_table = "string \<rightharpoonup> np_float list"
type_synonym h5_file = "string \<rightharpoonup> h5_table"

datatype 'p file_content = Hdf5 h5_file | Picture "'p list list" | Unreadable

type_synonym 'p directory = "(string \<times> 'p file_content) list"

subsection \<open>get\_xy\_locs\<close>

text \<open>
  \<^verbatim>\<open>h5py.File\<close> raises OSError on a file that is no hdf5 container, a missing
  dataset raises KeyError and a missing field ValueError. Each column is multiplied by
  \<open>PX_SIZE_MEASUREMENT\<close> and then divided by \<open>PX_SIZE_CLUSTERS\<close>, the x column first;
  \<^verbatim>\<open>np.column_stack\<close> pairs the two columns row by row.
\<close>

definition np_column_stack :: "'a list \<Rightarrow> 'a list \<Rightarrow> py_error + ('a \<times> 'a) list" where
  "np_column_stack a b = (if length a = length b then Inr (zip a b) else Inl ValueError)"

definition rescale :: "np_float list \<Rightarrow> np_float list" where
  "rescale column =
     map (\<lambda>v. np_truediv (np_mul v (of_int PX_SIZE_MEASUREMENT)) (of_int PX_SIZE_CLUSTERS)) column"

definition get_xy_locs :: "'p file_content \<Rightarrow> py_error + cluster_point list" where
  "get_xy_locs h5_path =
     (case h5_path of
        Hdf5 h5_file \<Rightarrow>
          (case h5_file ''clusters'' of None \<Rightarrow> Inl KeyError | Some clusters \<Rightarrow>
          (case clusters ''com_x'' of None \<Rightarrow> Inl ValueError | Some com_x \<Rightarrow>
          (case clusters ''com_y'' of None \<Rightarrow> Inl ValueError | Some com_y \<Rightarrow>
             np_column_stack (rescale com_x) (rescale com_y))))
      | _ \<Rightarrow> Inl OSError)"

subsection \<open>get\_mask\<close>

text \<open>
  \<^verbatim>\<open>convert("L")\<close> maps every pixel to an 8-bit intensity; the map depends on the
  mode of the image and is the parameter \<open>lum\<close>. \<^verbatim>\<open>FLIP_LEFT_RIGHT\<close> reverses every
  row. \<^verbatim>\<open>rotate(90)\<close> turns the image counter-clockwise by a quarter turn: on a
  square image it is Pillow's exact transposition \<^verbatim>\<open>ROTATE_90\<close>, which writes the
  input pixel of row \<open>y\<close> and column \<open>x\<close> to row \<open>w - 1 - x\<close> and column \<open>y\<close>; on any
  other image (the call passes no \<^verbatim>\<open>expand\<close>) it resamples about the centre to the
  nearest pixel into an image of the same size and fills what the turn leaves empty
  with 0.
\<close>

definition image_width :: "'a list list \<Rightarrow> nat" where
  "image_width img = (case img of [] \<Rightarrow> 0 | row # _ \<Rightarrow> length row)"

definition convert_L :: "('p \<Rightarrow> pixel) \<Rightarrow> 'p list list \<Rightarrow> pixel list list" where
  "convert_L lum img = map (map lum) img"

definition FLIP_LEFT_RIGHT :: "'a list list \<Rightarrow> 'a list list" where
  "FLIP_LEFT_RIGHT img = map rev img"

definition ROTATE_90 :: "'a list list \<Rightarrow> 'a list list" where
  "ROTATE_90 img =
     (let w = image_width img; h = length img
      in map (\<lambda>r. map (\<lambda>c. img ! c ! (w - 1 - r)) [0..<h]) [0..<w])"

definition rotate_resample :: "pixel list list \<Rightarrow> pixel list list" where
  "rotate_resample img =
     (let w = int (image_width img); h = int (length img)
      in map (\<lambda>yout. map (\<lambda>xout.
               let xin = (w + h - 1 - 2 * int yout) div 2;
                   yin = (2 * int xout + 1 + h - w) div 2
               in if 0 \<le> xin \<and> xin < w \<and> 0 \<le> yin \<and> yin < h
                  then img ! nat yin ! nat xin else 0)
             [0..<nat w]) [0..<nat h])"

definition rotate :: "pixel list list \<Rightarrow> pixel list list" where
  "rotate img =
     (if image_width img = length img then ROTATE_90 img else rotate_resample img)"

definition get_mask :: "('p \<Rightarrow> pixel) \<Rightarrow> 'p file_content \<Rightarrow> py_error + binary_mask" where
  "get_mask lum mask_path =
     (case mask_path of
        Picture decoded \<Rightarrow>
          (let img = convert_L lum decoded;
               img = FLIP_LEFT_RIGHT img;
               img = rotate img
           in Inr img)
      | _ \<Rightarrow> Inl UnidentifiedImageError)"

subsection \<open>The run over directories and masks\<close>

text \<open>
  What the run leaves on disk: for every mask a plot and a csv file of one row, each
  named by its directory and its file name.
\<close>

record csv_row =
  mask_name :: string
  mask_area_px :: nat
  mask_area_um :: rat
  cluster_count :: nat
  cluster_count_per_area :: np_float
  n_clusters :: nat

datatype written_file = Plot string string | Csv string string csv_row

text \<open>
  \<^verbatim>\<open>os.path.splitext(...)[0]\<close> of a file name: the name up to its last dot, and the
  whole name when only dots stand before that dot.
\<close>

definition splitext_root :: "string \<Rightarrow> string" where
  "splitext_root file =
     (let stem = rev (drop 1 (dropWhile (\<lambda>c. c \<noteq> CHR ''.'') (rev file)))
      in if list_all (\<lambda>c. c = CHR ''.'') stem then file else stem)"

text \<open>
  \<^verbatim>\<open>visualize_cluster_centers_mask\<close> unpacks \<^verbatim>\<open>zip(*clusters_xy)\<close> into two
  names, which raises ValueError when there is no cluster; otherwise it saves the plot.
  \<^verbatim>\<open>save_results\<close> writes the csv file. Matplotlib's drawing and the writing of
  a file always succeed here.
\<close>

definition visualize_cluster_centers_mask ::
  "cluster_point list \<Rightarrow> (int \<times> int) list \<Rightarrow> binary_mask \<Rightarrow> string \<Rightarrow> string \<Rightarrow> py_error + written_file"
where
  "visualize_cluster_centers_mask clusters_xy locs_mask msk name dir_path =
     (if clusters_xy = [] then Inl ValueError
      else Inr (Plot dir_path (name @ ''_FOV_mask_locs.png'')))"

definition save_results ::
  "string \<Rightarrow> nat \<Rightarrow> rat \<Rightarrow> nat \<Rightarrow> np_float \<Rightarrow> nat \<Rightarrow> string \<Rightarrow> string \<Rightarrow> written_file"
where
  "save_results name area_px area_um cnt per_area n_all dir_path save_name =
     Csv dir_path save_name
       \<lparr>mask_name = name, mask_area_px = area_px, mask_area_um = area_um,
        cluster_count = cnt, cluster_count_per_area = per_area, n_clusters = n_all\<rparr>"

text \<open>The body of the loop over the masks of one directory.\<close>

definition quantify_mask ::
  "('p \<Rightarrow> pixel) \<Rightarrow> string \<Rightarrow> string \<Rightarrow> cluster_point list \<Rightarrow> nat \<Rightarrow> string \<times> 'p file_content
     \<Rightarrow> py_error + written_file list"
where
  "quantify_mask lum dir_path cluster_file clusters_xy n_all mask_path =
     (let name = splitext_root (fst mask_path)
      in case get_mask lum (snd mask_path) of Inl e \<Rightarrow> Inl e | Inr msk \<Rightarrow>
         (let area = get_mask_area msk
          in case get_cluster_count msk clusters_xy of Inl e \<Rightarrow> Inl e | Inr counted \<Rightarrow>
             (let per_area = np_truediv (Finite (of_nat (fst counted))) (snd area)
              in case visualize_cluster_centers_mask clusters_xy (snd counted) msk name dir_path of
                   Inl e \<Rightarrow> Inl e
                 | Inr plot \<Rightarrow>
                     Inr [plot,
                          save_results name (fst area) (snd area) (fst counted) per_area n_all
                            dir_path (splitext_root cluster_file @ name @ ''.csv'')])))"

text \<open>
  The loop itself: an exception in one mask ends the loop; what was written before
  stays written.
\<close>

fun mask_loop ::
  "('p \<Rightarrow> pixel) \<Rightarrow> string \<Rightarrow> string \<Rightarrow> cluster_point list \<Rightarrow> nat \<Rightarrow> 'p directory
     \<Rightarrow> written_file list \<Rightarrow> py_error option \<times> written_file list"
where
  "mask_loop lum dir_path cluster_file clusters_xy n_all [] out = (None, out)"
| "mask_loop lum dir_path cluster_file clusters_xy n_all (mask_path # rest) out =
     (case quantify_mask lum dir_path cluster_file clusters_xy n_all mask_path of
        Inl e \<Rightarrow> (Some e, out)
      | Inr written \<Rightarrow>
          mask_loop lum dir_path cluster_file clusters_xy n_all rest (out @ written))"

definition is_cluster_file :: "string \<Rightarrow> bool" where
  "is_cluster_file file \<longleftrightarrow> suffix ''.hdf5'' file"

definition is_mask_file :: "string \<Rightarrow> bool" where
  "is_mask_file file \<longleftrightarrow>
     (suffix ''.tif'' file \<or> suffix ''.png'' file \<or> suffix ''.jpg'' file)
     \<and> \<not> sublist ''_FOV_mask_locs'' file"

text \<open>
  \<^verbatim>\<open>run_quantify_clusters\<close>: \<^verbatim>\<open>os.listdir\<close> raises FileNotFoundError on a
  missing directory, and taking element 0 of an empty list of hdf5 files raises
  IndexError.
\<close>

definition run_quantify_clusters ::
  "('p \<Rightarrow> pixel) \<Rightarrow> (string \<rightharpoonup> 'p directory) \<Rightarrow> string \<Rightarrow> written_file list
     \<Rightarrow> py_error option \<times> written_file list"
where
  "run_quantify_clusters lum fs dir_path out =
     (case fs dir_path of None \<Rightarrow> (Some FileNotFoundError, out) | Some files \<Rightarrow>
     (case filter (\<lambda>f. is_cluster_file (fst f)) files of
        [] \<Rightarrow> (Some IndexError, out)
      | cluster_path # _ \<Rightarrow>
         (let masks_paths = filter (\<lambda>f. is_mask_file (fst f)) files
          in case get_xy_locs (snd cluster_path) of Inl e \<Rightarrow> (Some e, out) | Inr clusters_xy \<Rightarrow>
               mask_loop lum dir_path (fst cluster_path) clusters_xy (length clusters_xy)
                 masks_paths out)))"

text \<open>
  \<^verbatim>\<open>main\<close>: the loop over \<open>DIR_PATHS\<close>, which is a parameter here. An exception
  in one directory ends the program.
\<close>

fun main ::
  "('p \<Rightarrow> pixel) \<Rightarrow> (string \<rightharpoonup> 'p directory) \<Rightarrow> string list \<Rightarrow> written_file list
     \<Rightarrow> py_error option \<times> written_file list"
where
  "main lum fs [] out = (None, out)"
| "main lum fs (dir_path # rest) out =
     (case run_quantify_clusters lum fs dir_path out of
        (Some e, out') \<Rightarrow> (Some e, out')
      | (None, out') \<Rightarrow> main lum fs rest out')"

subsection \<open>The two engine functions on a store\<close>

text \<open>
  To say what a call leaves unchanged, the arrays and lists live in a store and the
  functions take references. An object is allocated at the end of the store.
  \<^verbatim>\<open>get_mask_area\<close> binds its local name \<open>mask\<close> to the new array that
  \<^verbatim>\<open>np.where\<close> returns; \<^verbatim>\<open>get_cluster_count\<close> allocates the list \<open>locs_mask\<close>
  and appends to it in place.
\<close>

datatype obj = Array binary_mask | Coords "cluster_point list" | PyList "(int \<times> int) list"

type_synonym store = "obj list"

definition alloc :: "obj \<Rightarrow> store \<Rightarrow> nat \<times> store" where
  "alloc v s = (length s, s @ [v])"

definition load_array :: "store \<Rightarrow> nat \<Rightarrow> py_error + binary_mask" where
  "load_array s r =
     (if r < length s then (case s ! r of Array a \<Rightarrow> Inr a | _ \<Rightarrow> Inl TypeError)
      else Inl TypeError)"

definition load_coords :: "store \<Rightarrow> nat \<Rightarrow> py_error + cluster_point list" where
  "load_coords s r =
     (if r < length s then (case s ! r of Coords c \<Rightarrow> Inr c | _ \<Rightarrow> Inl TypeError)
      else Inl TypeError)"

definition list_append :: "nat \<Rightarrow> int \<times> int \<Rightarrow> store \<Rightarrow> store" where
  "list_append r v s = (case s ! r of PyList l \<Rightarrow> s[r := PyList (l @ [v])] | _ \<Rightarrow> s)"

definition get_mask_area_st :: "nat \<Rightarrow> store \<Rightarrow> (py_error + nat \<times> rat) \<times> store" where
  "get_mask_area_st mask_ref s =
     (case load_array s mask_ref of Inl e \<Rightarrow> (Inl e, s) | Inr a \<Rightarrow>
     (case alloc (Array (np_where_gt0 a)) s of (mask_ref', s') \<Rightarrow>
     (case load_array s' mask_ref' of Inl e \<Rightarrow> (Inl e, s') | Inr b \<Rightarrow>
        (let area_px = np_sum b;
             area_um = of_nat area_px * (of_int PX_SIZE_CLUSTERS / 1000) ^ 2
         in (Inr (area_px, area_um), s')))))"

fun cluster_loop_st ::
  "nat \<Rightarrow> nat \<Rightarrow> cluster_point list \<Rightarrow> nat \<Rightarrow> store \<Rightarrow> (py_error + nat) \<times> store"
where
  "cluster_loop_st mask_ref locs_ref [] count s = (Inr count, s)"
| "cluster_loop_st mask_ref locs_ref (xy # rest) count s =
     (case int_np_round (fst xy) of Inl e \<Rightarrow> (Inl e, s) | Inr x \<Rightarrow>
     (case int_np_round (snd xy) of Inl e \<Rightarrow> (Inl e, s) | Inr y \<Rightarrow>
     (case load_array s mask_ref of Inl e \<Rightarrow> (Inl e, s) | Inr msk \<Rightarrow>
     (case getitem msk x of Inl e \<Rightarrow> (Inl e, s) | Inr row \<Rightarrow>
     (case getitem row y of Inl e \<Rightarrow> (Inl e, s) | Inr v \<Rightarrow>
        if v \<noteq> 0
        then cluster_loop_st mask_ref locs_ref rest (count + 1) (list_append locs_ref (x, y) s)
        else cluster_loop_st mask_ref locs_ref rest count s)))))"

definition get_cluster_count_st ::
  "nat \<Rightarrow> nat \<Rightarrow> store \<Rightarrow> (py_error + nat \<times> nat) \<times> store"
where
  "get_cluster_count_st mask_ref xy_ref s =
     (case alloc (PyList []) s of (locs_ref, s') \<Rightarrow>
     (case load_coords s' xy_ref of Inl e \<Rightarrow> (Inl e, s') | Inr clusters_xy \<Rightarrow>
     (case cluster_loop_st mask_ref locs_ref clusters_xy 0 s' of
        (Inl e, s'') \<Rightarrow> (Inl e, s'')
      | (Inr count, s'') \<Rightarrow> (Inr (count, locs_ref), s''))))"

subsection \<open>Notions the properties are stated with\<close>

text \<open>A cluster point with two finite coordinates, and the indices the loop computes for it.\<close>

definition finite_point :: "rat \<times> rat \<Rightarrow> cluster_point" where
  "finite_point p = (Finite (fst p), Finite (snd p))"

definition rounded :: "rat \<times> rat \<Rightarrow> int \<times> int" where
  "rounded p = (round_half_even (fst p), round_half_even (snd p))"

text \<open>The cell that a pair of indices inside the grid names, and the number of non-zero cells.\<close>

definition cell :: "binary_mask \<Rightarrow> int \<times> int \<Rightarrow> pixel" where
  "cell msk ij = msk ! nat (fst ij) ! nat (snd ij)"

definition in_extent :: "nat \<Rightarrow> nat \<Rightarrow> int \<times> int \<Rightarrow> bool" where
  "in_extent r c ij \<longleftrightarrow> 0 \<le> fst ij \<and> fst ij < int r \<and> 0 \<le> snd ij \<and> snd ij < int c"

definition count_nonzero :: "binary_mask \<Rightarrow> nat" where
  "count_nonzero msk = length (filter (\<lambda>v. v \<noteq> 0) (concat msk))"

definition all_zero :: "binary_mask \<Rightarrow> bool" where
  "all_zero msk \<longleftrightarrow> list_all (list_all (\<lambda>v. v = 0)) msk"

text \<open>
  The indices Python accepts on an axis of length \<open>n\<close>, and the position an accepted
  index reads: a negative index counts from the end.
\<close>

definition py_valid :: "nat \<Rightarrow> int \<Rightarrow> bool" where
  "py_valid n i \<longleftrightarrow> - int n \<le> i \<and> i < int n"

definition py_valid2 :: "nat \<Rightarrow> nat \<Rightarrow> int \<times> int \<Rightarrow> bool" where
  "py_valid2 r c ij \<longleftrightarrow> py_valid r (fst ij) \<and> py_valid c (snd ij)"

definition wrap :: "nat \<Rightarrow> int \<Rightarrow> nat" where
  "wrap n i = (if i < 0 then nat (int n + i) else nat i)"

definition wrapped_cell :: "nat \<Rightarrow> nat \<Rightarrow> binary_mask \<Rightarrow> int \<times> int \<Rightarrow> pixel" where
  "wrapped_cell r c msk ij = msk ! wrap r (fst ij) ! wrap c (snd ij)"

text \<open>
  A square grid with one marked cell, and what a horizontal mirror and a quarter turn
  counter-clockwise do to a position \<open>(row, column)\<close> of a grid of side \<open>n\<close>.
\<close>

definition marked :: "nat \<Rightarrow> nat \<times> nat \<Rightarrow> pixel list list" where
  "marked n p = map (\<lambda>r. map (\<lambda>c. if (r, c) = p then 255 else 0) [0..<n]) [0..<n]"



text \<open>
  Two directories to run the program on: the first holds a mask file that cannot be
  decoded before a good one, the second only the good one.
\<close>

definition example_clusters :: h5_file where
  "example_clusters = [''clusters'' \<mapsto> [''com_x'' \<mapsto> [Finite (5 / 108)], ''com_y'' \<mapsto> [Finite (5 / 54)]]]"

definition example_fs :: "string \<rightharpoonup> pixel directory" where
  "example_fs =
     [''dir1'' \<mapsto> [(''locs.hdf5'', Hdf5 example_clusters), (''broken.tif'', Unreadable),
                   (''cell.png'', Picture [[0, 255], [255, 255]])],
      ''dir2'' \<mapsto> [(''locs.hdf5'', Hdf5 example_clusters),
                   (''cell.png'', Picture [[0, 255], [255, 255]])]]"

section \<open>Properties\<close>

subsection \<open>Indexing and rounding\<close>

lemma getitem_valid: "py_valid (length xs) i \<Longrightarrow> getitem xs i = Inr (xs ! wrap (length xs) i)"
  by (auto simp: getitem_def py_valid_def wrap_def)

lemma getitem_invalid: "\<not> py_valid (length xs) i \<Longrightarrow> getitem xs i = Inl IndexError"
  by (auto simp: getitem_def py_valid_def)

lemma wrap_less: "py_valid n i \<Longrightarrow> wrap n i < n"
  by (auto simp: py_valid_def wrap_def)

lemma has_shape_row: "has_shape msk r c \<Longrightarrow> i < r \<Longrightarrow> length (msk ! i) = c"
  by (simp add: has_shape_def list_all_length)

lemma round_half_even_nearest:
  "\<bar>of_int (round_half_even q) - q\<bar> \<le> \<bar>of_int k - q\<bar>"
proof -
  define f where "f = \<lfloor>q\<rfloor>"
  define d where "d = q - of_int f"
  have lo: "0 \<le> d" and up: "d < 1"
    unfolding d_def f_def by linarith+
  have below: "\<bar>of_int f - q\<bar> = d"
    using lo by (simp add: d_def)
  have above: "\<bar>of_int (f + 1) - q\<bar> = 1 - d"
    using up by (simp add: d_def)
  have far: "d \<le> \<bar>of_int k - q\<bar> \<and> 1 - d \<le> \<bar>of_int k - q\<bar>
      \<or> k = f \<or> k = f + 1"
  proof (cases "k \<le> f")
    case True
    show ?thesis
    proof (cases "k = f")
      case False
      with True have "k \<le> f - 1" by simp
      then have "(of_int k :: rat) \<le> of_int (f - 1)" by (simp only: of_int_le_iff)
      then have "(of_int k :: rat) \<le> of_int f - 1" by simp
      then show ?thesis using lo up by (simp add: d_def abs_if)
    qed simp
  next
    case False
    show ?thesis
    proof (cases "k = f + 1")
      case ne: False
      with False have "f + 2 \<le> k" by simp
      then have "(of_int (f + 2) :: rat) \<le> of_int k" by (simp only: of_int_le_iff)
      then have "(of_int f :: rat) + 2 \<le> of_int k" by simp
      then show ?thesis using lo up by (simp add: d_def abs_if)
    qed simp
  qed
  have r: "round_half_even q =
      (if d < 1 / 2 then f else if 1 / 2 < d then f + 1 else if even f then f else f + 1)"
    by (simp add: round_half_even_def Let_def f_def d_def)
  show ?thesis
    using far below above lo up unfolding r
    by (auto split: if_splits)
qed

lemma round_half_even_tie:
  "q - of_int \<lfloor>q\<rfloor> = 1 / 2 \<Longrightarrow> even (round_half_even q)"
  by (simp add: round_half_even_def Let_def)

subsection \<open>The membership loop\<close>

text \<open>
  On a list of finite points whose indices Python accepts, the loop returns the points
  on non-zero cells, in order; as soon as one index is not accepted, it raises
  IndexError; and whenever it returns, every point was finite and the list it returns
  is a subsequence of the rounded points.
\<close>

lemma cluster_loop_valid:
  assumes shape: "has_shape msk r c"
  shows "list_all (py_valid2 r c) (map rounded qs) \<Longrightarrow>
     cluster_loop msk (map finite_point qs) count locs =
       Inr (count + length (filter (\<lambda>ij. wrapped_cell r c msk ij \<noteq> 0) (map rounded qs)),
            locs @ filter (\<lambda>ij. wrapped_cell r c msk ij \<noteq> 0) (map rounded qs))"
proof (induction qs arbitrary: count locs)
  case Nil
  then show ?case by simp
next
  case (Cons q qs)
  from Cons.prems have v: "py_valid2 r c (rounded q)"
    and rest: "list_all (py_valid2 r c) (map rounded qs)"
    by simp_all
  from v have vx: "py_valid r (fst (rounded q))" and vy: "py_valid c (snd (rounded q))"
    by (simp_all add: py_valid2_def)
  from shape have len: "length msk = r" by (simp add: has_shape_def)
  have row: "getitem msk (fst (rounded q)) = Inr (msk ! wrap r (fst (rounded q)))"
    using getitem_valid [of msk "fst (rounded q)"] vx len by simp
  have "length (msk ! wrap r (fst (rounded q))) = c"
    using has_shape_row [OF shape] wrap_less [OF vx] by simp
  then have cel: "getitem (msk ! wrap r (fst (rounded q))) (snd (rounded q)) =
      Inr (wrapped_cell r c msk (rounded q))"
    using getitem_valid [of "msk ! wrap r (fst (rounded q))" "snd (rounded q)"] vy
    by (simp add: wrapped_cell_def)
  have rq: "round_half_even (fst q) = fst (rounded q)" "round_half_even (snd q) = snd (rounded q)"
    by (simp_all add: rounded_def)
  show ?case
    using row cel Cons.IH [OF rest] by (simp add: finite_point_def rq)
qed

lemma cluster_loop_invalid:
  assumes shape: "has_shape msk r c"
  shows "\<not> list_all (py_valid2 r c) (map rounded qs) \<Longrightarrow>
     cluster_loop msk (map finite_point qs) count locs = Inl IndexError"
proof (induction qs arbitrary: count locs)
  case Nil
  then show ?case by simp
next
  case (Cons q qs)
  from shape have len: "length msk = r" by (simp add: has_shape_def)
  have rq: "round_half_even (fst q) = fst (rounded q)" "round_half_even (snd q) = snd (rounded q)"
    by (simp_all add: rounded_def)
  show ?case
  proof (cases "py_valid r (fst (rounded q))")
    case False
    then have "getitem msk (fst (rounded q)) = Inl IndexError"
      using getitem_invalid [of msk "fst (rounded q)"] len by simp
    then show ?thesis by (simp add: finite_point_def rq)
  next
    case vx: True
    have row: "getitem msk (fst (rounded q)) = Inr (msk ! wrap r (fst (rounded q)))"
      using getitem_valid [of msk "fst (rounded q)"] vx len by simp
    have lrow: "length (msk ! wrap r (fst (rounded q))) = c"
      using has_shape_row [OF shape] wrap_less [OF vx] by simp
    show ?thesis
    proof (cases "py_valid c (snd (rounded q))")
      case False
      then have "getitem (msk ! wrap r (fst (rounded q))) (snd (rounded q)) = Inl IndexError"
        using getitem_invalid [of "msk ! wrap r (fst (rounded q))" "snd (rounded q)"] lrow by simp
      with row show ?thesis by (simp add: finite_point_def rq)
    next
      case vy: True
      from vx vy have "py_valid2 r c (rounded q)"
        by (simp add: py_valid2_def)
      with Cons.prems have "\<not> list_all (py_valid2 r c) (map rounded qs)"
        by simp
      note ih = Cons.IH [OF this]
      have "getitem (msk ! wrap r (fst (rounded q))) (snd (rounded q)) =
          Inr (wrapped_cell r c msk (rounded q))"
        using getitem_valid [of "msk ! wrap r (fst (rounded q))" "snd (rounded q)"] vy lrow
        by (simp add: wrapped_cell_def)
      with row ih show ?thesis by (simp add: finite_point_def rq)
    qed
  qed
qed

lemma int_np_round_Inr: "int_np_round v = Inr x \<Longrightarrow> \<exists>a. v = Finite a \<and> x = round_half_even a"
  by (cases v) auto

lemma cluster_loop_subseq:
  "cluster_loop msk pts count locs = Inr (cnt, out) \<Longrightarrow>
     \<exists>qs new. pts = map finite_point qs \<and> out = locs @ new \<and> cnt = count + length new
        \<and> subseq new (map rounded qs)"
proof (induction pts arbitrary: count locs)
  case Nil
  then show ?case by simp
next
  case (Cons xy rest)
  from Cons.prems obtain x y row v where
    x: "int_np_round (fst xy) = Inr x" and y: "int_np_round (snd xy) = Inr y" and
    "getitem msk x = Inr row" and "getitem row y = Inr v" and
    step: "(if v \<noteq> 0 then cluster_loop msk rest (count + 1) (locs @ [(x, y)])
            else cluster_loop msk rest count locs) = Inr (cnt, out)"
    by (auto split: sum.splits)
  from x y obtain a b where ab: "fst xy = Finite a" "snd xy = Finite b"
    "x = round_half_even a" "y = round_half_even b"
    by (auto dest!: int_np_round_Inr)
  then have xy: "xy = finite_point (a, b)" "(x, y) = rounded (a, b)"
    by (simp_all add: finite_point_def rounded_def prod_eq_iff)
  show ?case
  proof (cases "v \<noteq> 0")
    case True
    with step have "cluster_loop msk rest (count + 1) (locs @ [(x, y)]) = Inr (cnt, out)"
      by simp
    from Cons.IH [OF this] obtain qs new where
      "rest = map finite_point qs" "out = (locs @ [(x, y)]) @ new"
      "cnt = count + 1 + length new" "subseq new (map rounded qs)"
      by blast
    with xy have "xy # rest = map finite_point ((a, b) # qs) \<and> out = locs @ ((x, y) # new)
        \<and> cnt = count + length ((x, y) # new) \<and> subseq ((x, y) # new) (map rounded ((a, b) # qs))"
      by simp
    then show ?thesis
      by (intro exI [of _ "(a, b) # qs"] exI [of _ "(x, y) # new"])
  next
    case False
    with step have "cluster_loop msk rest count locs = Inr (cnt, out)"
      by simp
    from Cons.IH [OF this] obtain qs new where
      "rest = map finite_point qs" "out = locs @ new"
      "cnt = count + length new" "subseq new (map rounded qs)"
      by blast
    with xy have "xy # rest = map finite_point ((a, b) # qs) \<and> out = locs @ new
        \<and> cnt = count + length new \<and> subseq new (map rounded ((a, b) # qs))"
      by (simp add: list_emb_Cons)
    then show ?thesis
      by (intro exI [of _ "(a, b) # qs"] exI [of _ new])
  qed
qed


subsection \<open>Claims about the membership test\<close>

text \<open>
  Claim C1. For a mask of \<open>r\<close> rows and \<open>c\<close> columns and finite cluster points whose
  rounded coordinates are indices that Python accepts, \<open>get_cluster_count\<close> rounds both
  coordinates to the nearest integer (no integer is nearer to the coordinate than the
  rounded one), a tie going to the even neighbour as NumPy's rounding does; it reads
  the cell with rounded \<open>x\<close> as row index and rounded \<open>y\<close> as column index, which for
  indices inside the grid is the cell of that row and that column; and it keeps exactly
  the points whose cell is not zero, so that a point is inside if and only if its cell
  is non-zero.
\<close>

theorem membership_test:
  assumes "has_shape msk r c" and "list_all (py_valid2 r c) (map rounded qs)"
  shows "get_cluster_count msk (map finite_point qs) =
           Inr (length (filter (\<lambda>ij. wrapped_cell r c msk ij \<noteq> 0) (map rounded qs)),
                filter (\<lambda>ij. wrapped_cell r c msk ij \<noteq> 0) (map rounded qs))
         \<and> (\<forall>ij. in_extent r c ij \<longrightarrow> py_valid2 r c ij \<and> wrapped_cell r c msk ij = cell msk ij)
         \<and> (\<forall>q \<in> set qs. \<forall>k.
               \<bar>of_int (fst (rounded q)) - fst q\<bar> \<le> \<bar>of_int k - fst q\<bar>
             \<and> \<bar>of_int (snd (rounded q)) - snd q\<bar> \<le> \<bar>of_int k - snd q\<bar>)
         \<and> (\<forall>q \<in> set qs.
               (fst q - of_int \<lfloor>fst q\<rfloor> = 1 / 2 \<longrightarrow> even (fst (rounded q)))
             \<and> (snd q - of_int \<lfloor>snd q\<rfloor> = 1 / 2 \<longrightarrow> even (snd (rounded q))))"
proof -
  have "in_extent r c ij \<longrightarrow> py_valid2 r c ij \<and> wrapped_cell r c msk ij = cell msk ij" for ij
    by (auto simp: in_extent_def py_valid2_def py_valid_def wrapped_cell_def cell_def wrap_def)
  moreover have "get_cluster_count msk (map finite_point qs) =
      Inr (length (filter (\<lambda>ij. wrapped_cell r c msk ij \<noteq> 0) (map rounded qs)),
           filter (\<lambda>ij. wrapped_cell r c msk ij \<noteq> 0) (map rounded qs))"
    using cluster_loop_valid [OF assms, of 0 "[]"]
    by (simp add: get_cluster_count_def)
  moreover have "\<bar>of_int (fst (rounded q)) - fst q\<bar> \<le> \<bar>of_int k - fst q\<bar>
      \<and> \<bar>of_int (snd (rounded q)) - snd q\<bar> \<le> \<bar>of_int k - snd q\<bar>" for q k
    by (simp add: rounded_def round_half_even_nearest)
  moreover have "(fst q - of_int \<lfloor>fst q\<rfloor> = 1 / 2 \<longrightarrow> even (fst (rounded q)))
      \<and> (snd q - of_int \<lfloor>snd q\<rfloor> = 1 / 2 \<longrightarrow> even (snd (rounded q)))" for q
    by (simp add: rounded_def round_half_even_tie)
  ultimately show ?thesis by blast
qed

theorem membership_test_witness:
  "has_shape [[0, 7], [0, 0 :: pixel]] 2 2
   \<and> list_all (py_valid2 2 2) (map rounded [(1 / 2, 3 / 4), (5 / 4, 1 / 4), (- 3 / 4, 1)])
   \<and> in_extent 2 2 (rounded (1 / 2, 3 / 4))
   \<and> cell [[0, 7], [0, 0]] (rounded (1 / 2, 3 / 4)) = 7
   \<and> get_cluster_count [[0, 7], [0, 0]] (map finite_point [(1 / 2, 3 / 4), (5 / 4, 1 / 4), (- 3 / 4, 1)])
       = Inr (1, [(0, 1)])
   \<and> even (fst (rounded (1 / 2, 3 / 4)))"
proof -
  have shape: "has_shape [[0, 7], [0, 0 :: pixel]] 2 2"
    by code_simp
  have valid: "list_all (py_valid2 2 2) (map rounded [(1 / 2, 3 / 4), (5 / 4, 1 / 4), (- 3 / 4, 1)])"
    by code_simp
  have inside: "in_extent 2 2 (rounded (1 / 2, 3 / 4))"
    by code_simp
  have seven: "cell [[0, 7], [0, 0]] (rounded (1 / 2, 3 / 4)) = 7"
    by code_simp
  have sel: "filter (\<lambda>ij. wrapped_cell 2 2 [[0, 7], [0, 0]] ij \<noteq> 0)
      (map rounded [(1 / 2, 3 / 4), (5 / 4, 1 / 4), (- 3 / 4, 1)]) = [(0, 1)]"
    by code_simp
  have tie: "fst (1 / 2 :: rat, 3 / 4 :: rat) - of_int \<lfloor>fst (1 / 2 :: rat, 3 / 4 :: rat)\<rfloor> = 1 / 2"
    by code_simp
  from tie membership_test [OF shape valid]
  have run: "get_cluster_count [[0, 7], [0, 0]]
      (map finite_point [(1 / 2, 3 / 4), (5 / 4, 1 / 4), (- 3 / 4, 1)]) = Inr (1, [(0, 1)])"
    and tie_even: "even (fst (rounded (1 / 2, 3 / 4)))"
    unfolding sel by simp_all
  from shape valid inside seven run tie_even show ?thesis
    by (intro conjI)
qed

text \<open>
  Claim C2, as the code has it. The claim speaks of rounded coordinates outside the
  grid extent; Python accepts the indices from \<open>-n\<close> to \<open>-1\<close> as well, so the error is
  raised for the rounded coordinates outside \<open>-n \<le> i < n\<close>: if the sequence holds a
  point whose rounded \<open>x\<close> is outside \<open>[-r, r)\<close> or whose rounded \<open>y\<close> is outside
  \<open>[-c, c)\<close>, \<open>get_cluster_count\<close> fails with IndexError and classifies nothing.
\<close>

theorem index_error_outside_python_range:
  assumes "has_shape msk r c" and "q \<in> set qs"
    and "\<not> py_valid r (fst (rounded q)) \<or> \<not> py_valid c (snd (rounded q))"
  shows "get_cluster_count msk (map finite_point qs) = Inl IndexError"
proof -
  from assms(2,3) have "\<not> list_all (py_valid2 r c) (map rounded qs)"
    by (auto simp: list_all_iff py_valid2_def)
  from cluster_loop_invalid [OF assms(1) this] show ?thesis
    by (simp add: get_cluster_count_def)
qed

theorem index_error_outside_python_range_witness:
  "has_shape [[1, 1], [1, 1 :: pixel]] 2 2
   \<and> (1, 2) \<in> set [(0, 0), (1, 2 :: rat)]
   \<and> \<not> py_valid 2 (snd (rounded (1, 2)))
   \<and> get_cluster_count [[1, 1], [1, 1]] (map finite_point [(0, 0), (1, 2)]) = Inl IndexError"
proof -
  have shape: "has_shape [[1, 1], [1, 1 :: pixel]] 2 2"
    by code_simp
  have mem: "(1, 2) \<in> set [(0, 0), (1, 2 :: rat)]"
    by simp
  have bad: "\<not> py_valid 2 (snd (rounded (1, 2)))"
    by code_simp
  then have bad': "\<not> py_valid 2 (fst (rounded (1, 2))) \<or> \<not> py_valid 2 (snd (rounded (1, 2)))"
    by simp
  show ?thesis
    using shape mem bad index_error_outside_python_range [OF shape mem bad']
    by simp
qed

text \<open>
  Claim C2 fails as stated: on a mask of 2 rows and 2 columns the point \<open>(-1, -1)\<close> has
  rounded coordinates outside the grid extent, and yet no error is raised: the point is
  classified against the cell of row 1 and column 1 and counted as inside.
\<close>

theorem negative_index_no_error_counterexample:
  "\<not> in_extent 2 2 (rounded (- 1, - 1))
   \<and> has_shape [[0, 0], [0, 255 :: pixel]] 2 2
   \<and> get_cluster_count [[0, 0], [0, 255]] [finite_point (- 1, - 1)] = Inr (1, [(- 1, - 1)])"
  by code_simp

text \<open>
  Claim C10, as the code has it. The claim asks only one rounded coordinate to be
  negative and in range; the other one must be an index Python accepts too. For a mask
  of \<open>r\<close> rows and \<open>c\<close> columns and points whose rounded \<open>x\<close> lies in \<open>[-r, r)\<close> and
  rounded \<open>y\<close> in \<open>[-c, c)\<close>, \<open>get_cluster_count\<close> raises no error; an index \<open>i\<close>
  from \<open>-n\<close> to \<open>-1\<close> selects position \<open>n + i\<close>, counted from the opposite edge, and
  the point is inside when that cell is not zero; and whenever the function returns,
  the count equals the length of the list of points it returns.
\<close>

theorem negative_index_wraps:
  assumes "has_shape msk r c" and "list_all (py_valid2 r c) (map rounded qs)"
  shows "get_cluster_count msk (map finite_point qs) =
           Inr (length (filter (\<lambda>ij. wrapped_cell r c msk ij \<noteq> 0) (map rounded qs)),
                filter (\<lambda>ij. wrapped_cell r c msk ij \<noteq> 0) (map rounded qs))
         \<and> (\<forall>i. - int r \<le> i \<and> i \<le> - 1 \<longrightarrow> int (wrap r i) = int r + i)
         \<and> (\<forall>j. - int c \<le> j \<and> j \<le> - 1 \<longrightarrow> int (wrap c j) = int c + j)
         \<and> (get_cluster_count msk' pts = Inr (cnt, locs) \<longrightarrow> cnt = length locs)"
proof -
  have "get_cluster_count msk' pts = Inr (cnt, locs) \<longrightarrow> cnt = length locs"
    using cluster_loop_subseq [of msk' pts 0 "[]" cnt locs]
    by (auto simp: get_cluster_count_def)
  moreover have "- int n \<le> i \<and> i \<le> - 1 \<longrightarrow> int (wrap n i) = int n + i" for n i
    by (simp add: wrap_def)
  ultimately show ?thesis
    using cluster_loop_valid [OF assms, of 0 "[]"]
    by (simp add: get_cluster_count_def)
qed

theorem negative_index_wraps_witness:
  "has_shape [[0, 0, 0], [0, 0, 9 :: pixel]] 2 3
   \<and> list_all (py_valid2 2 3) (map rounded [(- 1, - 1), (- 2, 1), (1, - 1)])
   \<and> get_cluster_count [[0, 0, 0], [0, 0, 9]] (map finite_point [(- 1, - 1), (- 2, 1), (1, - 1)])
       = Inr (2, [(- 1, - 1), (1, - 1)])"
proof -
  have shape: "has_shape [[0, 0, 0], [0, 0, 9 :: pixel]] 2 3"
    by code_simp
  have valid: "list_all (py_valid2 2 3) (map rounded [(- 1, - 1), (- 2, 1), (1, - 1)])"
    by code_simp
  have sel: "filter (\<lambda>ij. wrapped_cell 2 3 [[0, 0, 0], [0, 0, 9]] ij \<noteq> 0)
      (map rounded [(- 1, - 1), (- 2, 1), (1, - 1)]) = [(- 1, - 1), (1, - 1)]"
    by code_simp
  show ?thesis
    using shape valid negative_index_wraps [OF shape valid] unfolding sel
    by simp
qed

text \<open>
  Claim C10 fails as stated: on a mask of 2 rows and 2 columns the point \<open>(-1, 2)\<close> has
  its rounded \<open>x\<close> in \<open>[-2, -1]\<close>, and \<open>get_cluster_count\<close> raises IndexError, for the
  column index 2.
\<close>

theorem negative_row_index_error_counterexample:
  "has_shape [[1, 1], [1, 1 :: pixel]] 2 2
   \<and> - 2 \<le> fst (rounded (- 1, 2)) \<and> fst (rounded (- 1, 2)) \<le> - 1
   \<and> get_cluster_count [[1, 1], [1, 1]] [finite_point (- 1, 2)] = Inl IndexError"
  by code_simp

text \<open>
  Claim C8. Whenever \<open>get_cluster_count\<close> returns a result, the count is at least 0 and
  at most the length of the sequence of cluster points, and the points it returns are a
  subsequence of the rounded input points: they keep the order in which the loop met
  them.
\<close>

theorem count_bound_and_order:
  assumes "get_cluster_count msk pts = Inr (cnt, locs)"
  shows "0 \<le> cnt \<and> cnt \<le> length pts
         \<and> (\<exists>qs. pts = map finite_point qs \<and> subseq locs (map rounded qs))"
proof -
  from assms obtain qs new where
    qs: "pts = map finite_point qs" and new: "locs = [] @ new" "cnt = 0 + length new"
    and sub: "subseq new (map rounded qs)"
    unfolding get_cluster_count_def by (blast dest: cluster_loop_subseq)
  from sub have "length new \<le> length (map rounded qs)"
    by (rule list_emb_length)
  with qs new sub show ?thesis by auto
qed

theorem count_bound_and_order_witness:
  "get_cluster_count [[0, 7], [5, 0]] [(Finite (1 / 4), Finite 1), (Finite 0, Finite 0), (Finite 1, Finite (1 / 3))]
     = Inr (2, [(0, 1), (1, 0)])
   \<and> (2 :: nat) \<le> length [(Finite (1 / 4), Finite 1), (Finite 0, Finite 0), (Finite 1, Finite (1 / 3))]
   \<and> (\<exists>qs. [(Finite (1 / 4), Finite 1), (Finite 0, Finite 0), (Finite 1, Finite (1 / 3))] = map finite_point qs
          \<and> subseq [(0, 1), (1, 0)] (map rounded qs))"
proof -
  have run: "get_cluster_count [[0, 7], [5, 0]]
      [(Finite (1 / 4), Finite 1), (Finite 0, Finite 0), (Finite 1, Finite (1 / 3))]
     = Inr (2, [(0, 1), (1, 0)])"
    by code_simp
  show ?thesis
    using run count_bound_and_order [OF run] by simp
qed

subsection \<open>The area of a mask\<close>

lemma row_sum_where:
  "sum_list (map (\<lambda>v. unat (if 0 < v then 1 else v)) (row :: pixel list))
     = length (filter (\<lambda>v. v \<noteq> 0) row)"
  by (induction row) (auto simp: word_greater_zero_iff)

lemma np_sum_where: "np_sum (np_where_gt0 msk) = count_nonzero msk"
  by (induction msk) (simp_all add: np_sum_def np_where_gt0_def count_nonzero_def o_def row_sum_where)

text \<open>
  Claim C5. For every mask, \<open>get_mask_area\<close> returns as \<open>area_px\<close> the number of
  non-zero cells and as the physical area \<open>area_px\<close> times the square of the mask pixel
  size in micrometres, \<open>(PX_SIZE_CLUSTERS / 1000)\<^sup>2\<close>; so, the pixel size being fixed, a
  mask with no fewer foreground pixels has no smaller physical area.
\<close>

theorem mask_area:
  "fst (get_mask_area msk) = count_nonzero msk
   \<and> snd (get_mask_area msk) = of_nat (fst (get_mask_area msk)) * (of_int PX_SIZE_CLUSTERS / 1000) ^ 2
   \<and> (fst (get_mask_area msk) \<le> fst (get_mask_area msk')
        \<longrightarrow> snd (get_mask_area msk) \<le> snd (get_mask_area msk'))"
  by (simp add: get_mask_area_def Let_def np_sum_where PX_SIZE_CLUSTERS_def)

theorem mask_area_witness:
  "fst (get_mask_area [[0, 3], [0, 0]]) \<le> fst (get_mask_area [[255, 0], [1, 9]])
   \<and> get_mask_area [[0, 3], [0, 0]] = (1, 1 / 10000)
   \<and> get_mask_area [[255, 0], [1, 9]] = (3, 3 / 10000)
   \<and> count_nonzero [[255, 0], [1, 9]] = 3
   \<and> snd (get_mask_area [[0, 3], [0, 0]]) \<le> snd (get_mask_area [[255, 0], [1, 9]])"
proof -
  have le: "fst (get_mask_area [[0, 3], [0, 0]]) \<le> fst (get_mask_area [[255, 0], [1, 9]])"
    by code_simp
  have a: "get_mask_area [[0, 3], [0, 0]] = (1, 1 / 10000)"
    by code_simp
  have b: "get_mask_area [[255, 0], [1, 9]] = (3, 3 / 10000)"
    by code_simp
  show ?thesis
    using le a b mask_area [of "[[0, 3], [0, 0]]" "[[255, 0], [1, 9]]"]
      mask_area [of "[[255, 0], [1, 9]]" "[]"]
    by simp
qed

subsection \<open>The coordinates\<close>




subsection \<open>The orientation of the mask\<close>









text \<open>
  The order of the two geometric steps can be observed, and an image that is not square
  keeps its size under the turn and loses what leaves the frame.
\<close>

lemma flip_then_rotate_order_matters:
  "FLIP_LEFT_RIGHT (rotate (marked 4 (0, 0))) \<noteq> rotate (FLIP_LEFT_RIGHT (marked 4 (0, 0)))"
  by code_simp

lemma get_mask_not_square:
  "get_mask id (Picture [[1, 2, 3], [4, 5, 6]]) = Inr [[1, 4, 0], [2, 5, 0]]"
  by code_simp

subsection \<open>The empty mask\<close>

lemma getitem_in_set: "getitem xs i = Inr v \<Longrightarrow> v \<in> set xs"
  by (auto simp: getitem_def split: if_splits)

lemma getitem_error: "getitem xs i = Inl e \<Longrightarrow> e = IndexError"
  by (auto simp: getitem_def split: if_splits)

lemma int_np_round_error: "int_np_round v = Inl e \<Longrightarrow> e = ValueError \<or> e = OverflowError"
  by (cases v) auto

lemma all_zero_count: "all_zero msk \<Longrightarrow> count_nonzero msk = 0"
  by (auto simp: all_zero_def count_nonzero_def list_all_iff filter_empty_conv)

lemma cluster_loop_all_zero:
  assumes "all_zero msk"
  shows "cluster_loop msk pts count locs = Inr (cnt, out) \<Longrightarrow> cnt = count \<and> out = locs"
proof (induction pts arbitrary: count locs)
  case Nil
  then show ?case by simp
next
  case (Cons xy rest)
  from Cons.prems obtain x y row v where
    row: "getitem msk x = Inr row" and v: "getitem row y = Inr v" and
    step: "(if v \<noteq> 0 then cluster_loop msk rest (count + 1) (locs @ [(x, y)])
            else cluster_loop msk rest count locs) = Inr (cnt, out)"
    by (auto split: sum.splits)
  from row v have "row \<in> set msk" "v \<in> set row"
    by (auto dest: getitem_in_set)
  with assms have "v = 0"
    by (auto simp: all_zero_def list_all_iff)
  with step Cons.IH show ?case by simp
qed

lemma cluster_loop_errors:
  "cluster_loop msk pts count locs = Inl e \<Longrightarrow>
     e = IndexError \<or> e = ValueError \<or> e = OverflowError"
proof (induction pts arbitrary: count locs)
  case Nil
  then show ?case by simp
next
  case (Cons xy rest)
  then show ?case
    by (auto split: sum.splits if_splits dest: getitem_error int_np_round_error)
qed

text \<open>
  Claim C6. For a mask whose cells are all zero, the area is 0 in pixels and in square
  micrometres; whenever the processing of the mask returns, the row it writes has area 0,
  count 0 and the density NaN, the result of NumPy's \<open>0 / 0.0\<close>; an exception can only
  come from the membership test or the plot (IndexError, ValueError, OverflowError),
  never from the division; and for a non-empty sequence of finite points with indices
  that Python accepts the processing does return.
\<close>

theorem empty_mask_density:
  assumes "get_mask lum (snd mask_path) = Inr msk" and "all_zero msk"
  shows "get_mask_area msk = (0, 0)
    \<and> (\<forall>written. quantify_mask lum dir_path cluster_file clusters_xy n_all mask_path = Inr written \<longrightarrow>
          (\<exists>plot save_name row. written = [plot, Csv dir_path save_name row]
              \<and> mask_area_px row = 0 \<and> mask_area_um row = 0 \<and> cluster_count row = 0
              \<and> cluster_count_per_area row = NaN))
    \<and> (\<forall>e. quantify_mask lum dir_path cluster_file clusters_xy n_all mask_path = Inl e \<longrightarrow>
          e = IndexError \<or> e = ValueError \<or> e = OverflowError)
    \<and> (has_shape msk r c \<and> qs \<noteq> [] \<and> list_all (py_valid2 r c) (map rounded qs)
          \<and> clusters_xy = map finite_point qs \<longrightarrow>
          (\<exists>written. quantify_mask lum dir_path cluster_file clusters_xy n_all mask_path = Inr written))"
proof -
  have area: "get_mask_area msk = (0, 0)"
    using all_zero_count [OF assms(2)]
    by (simp add: get_mask_area_def Let_def np_sum_where)
  have counted: "cnt = 0 \<and> locs = []" if "get_cluster_count msk clusters_xy = Inr (cnt, locs)" for cnt locs
    using cluster_loop_all_zero [OF assms(2), of clusters_xy 0 "[]" cnt locs] that
    by (simp add: get_cluster_count_def)
  have ok: "\<exists>plot save_name row. written = [plot, Csv dir_path save_name row]
              \<and> mask_area_px row = 0 \<and> mask_area_um row = 0 \<and> cluster_count row = 0
              \<and> cluster_count_per_area row = NaN"
    if "quantify_mask lum dir_path cluster_file clusters_xy n_all mask_path = Inr written" for written
    using that assms(1) area counted
    by (auto simp: quantify_mask_def Let_def save_results_def split: sum.splits)
  have err: "e = IndexError \<or> e = ValueError \<or> e = OverflowError"
    if "quantify_mask lum dir_path cluster_file clusters_xy n_all mask_path = Inl e" for e
    using that assms(1) cluster_loop_errors [of msk clusters_xy 0 "[]" e]
    by (auto simp: quantify_mask_def Let_def get_cluster_count_def
          visualize_cluster_centers_mask_def split: sum.splits if_splits)
  have runs: "\<exists>written. quantify_mask lum dir_path cluster_file clusters_xy n_all mask_path = Inr written"
    if "has_shape msk r c" "qs \<noteq> []" "list_all (py_valid2 r c) (map rounded qs)"
       "clusters_xy = map finite_point qs"
    using that assms(1) cluster_loop_valid [OF that(1,3), of 0 "[]"]
    by (simp add: quantify_mask_def Let_def get_cluster_count_def visualize_cluster_centers_mask_def)
  from area ok err runs show ?thesis by blast
qed


theorem empty_mask_density_witness:
  "get_mask id (snd (''empty.tif'', Picture [[0, 0], [0, 0 :: pixel]])) = Inr [[0, 0], [0, 0]]
   \<and> all_zero [[0, 0], [0, 0]]
   \<and> get_mask_area [[0, 0], [0, 0]] = (0, 0)
   \<and> quantify_mask id ''dir'' ''locs.hdf5'' [(Finite (1 / 2), Finite 1)] 1
         (''empty.tif'', Picture [[0, 0], [0, 0]])
       = Inr [Plot ''dir'' ''empty_FOV_mask_locs.png'',
              Csv ''dir'' ''locsempty.csv''
                \<lparr>mask_name = ''empty'', mask_area_px = 0, mask_area_um = 0, cluster_count = 0,
                 cluster_count_per_area = NaN, n_clusters = 1\<rparr>]"
proof -
  have m: "get_mask id (snd (''empty.tif'', Picture [[0, 0], [0, 0 :: pixel]])) = Inr [[0, 0], [0, 0]]"
    by code_simp
  have z: "all_zero [[0, 0], [0, 0]]"
    by code_simp
  have run: "quantify_mask id ''dir'' ''locs.hdf5'' [(Finite (1 / 2), Finite 1)] 1
         (''empty.tif'', Picture [[0, 0], [0, 0 :: pixel]])
       = Inr [Plot ''dir'' ''empty_FOV_mask_locs.png'',
              Csv ''dir'' ''locsempty.csv''
                \<lparr>mask_name = ''empty'', mask_area_px = 0, mask_area_um = 0, cluster_count = 0,
                 cluster_count_per_area = NaN, n_clusters = 1\<rparr>]"
    by code_simp
  show ?thesis
    using m z run empty_mask_density [OF m z]
    by simp
qed

subsection \<open>Failures\<close>

lemma mask_loop_append:
  "mask_loop lum d cf xy n (ms1 @ ms2) out =
     (case mask_loop lum d cf xy n ms1 out of
        (None, out') \<Rightarrow> mask_loop lum d cf xy n ms2 out'
      | (Some e, out') \<Rightarrow> (Some e, out'))"
  by (induction ms1 arbitrary: out) (simp_all split: sum.splits)

lemma main_append:
  "main lum fs (ds1 @ ds2) out =
     (case main lum fs ds1 out of
        (None, out') \<Rightarrow> main lum fs ds2 out'
      | (Some e, out') \<Rightarrow> (Some e, out'))"
  by (induction ds1 arbitrary: out) (simp_all split: prod.splits option.splits)

text \<open>
  Claim C7, as the code has it. The script has no exception handler. A failure while
  processing one mask ends the loop over the masks with that exception: what the masks
  before it wrote stays, and no mask after it is processed. A failure in one directory
  ends the loop over the directories in the same way: no directory after it is
  processed.
\<close>

theorem failure_aborts_run:
  "(quantify_mask lum dir_path cluster_file clusters_xy n_all bad = Inl e
      \<and> mask_loop lum dir_path cluster_file clusters_xy n_all before out = (None, out')
      \<longrightarrow> mask_loop lum dir_path cluster_file clusters_xy n_all (before @ bad # after) out
            = (Some e, out'))
   \<and> (run_quantify_clusters lum fs d out1 = (Some e', out2)
      \<and> main lum fs dirs_before out0 = (None, out1)
      \<longrightarrow> main lum fs (dirs_before @ d # dirs_after) out0 = (Some e', out2))"
  by (simp add: mask_loop_append main_append)

theorem failure_aborts_run_witness:
  "quantify_mask id ''dir1'' ''locs.hdf5'' [(Finite (1 / 2), Finite 1)] 1 (''broken.tif'', Unreadable)
     = Inl UnidentifiedImageError
   \<and> mask_loop id ''dir1'' ''locs.hdf5'' [(Finite (1 / 2), Finite 1)] 1 [] [] = (None, [])
   \<and> mask_loop id ''dir1'' ''locs.hdf5'' [(Finite (1 / 2), Finite 1)] 1
        ([] @ (''broken.tif'', Unreadable) # [(''cell.png'', Picture [[0, 255], [255, 255]])]) []
       = (Some UnidentifiedImageError, [])
   \<and> run_quantify_clusters id example_fs ''dir1'' [] = (Some UnidentifiedImageError, [])
   \<and> main id example_fs [] [] = (None, [])
   \<and> main id example_fs ([] @ ''dir1'' # [''dir2'']) [] = (Some UnidentifiedImageError, [])"
proof -
  have bad: "quantify_mask id ''dir1'' ''locs.hdf5'' [(Finite (1 / 2), Finite 1)] 1
      (''broken.tif'', Unreadable :: pixel file_content) = Inl UnidentifiedImageError"
    by code_simp
  have before: "mask_loop id ''dir1'' ''locs.hdf5'' [(Finite (1 / 2), Finite 1)] 1 [] [] = (None, [])"
    by simp
  have dir: "run_quantify_clusters id example_fs ''dir1'' [] = (Some UnidentifiedImageError, [])"
    by code_simp
  have dirs: "main id example_fs [] [] = (None, [])"
    by simp
  show ?thesis
    using bad before dir dirs
      failure_aborts_run [of id "''dir1''" "''locs.hdf5''" "[(Finite (1 / 2), Finite 1)]" 1
        "(''broken.tif'', Unreadable)" UnidentifiedImageError "[]" "[]" "[]"
        "[(''cell.png'', Picture [[0, 255], [255, 255]])]"
        example_fs "''dir1''" "[]" UnidentifiedImageError "[]" "[]" "[]" "[''dir2'']"]
    by simp
qed

text \<open>
  Claim C7 fails as stated: in the first example directory the file that cannot be
  decoded comes before a good mask, and the run writes nothing for the good mask,
  which on its own is processed without error; and the run over both directories writes
  nothing for the second directory, which on its own is processed without error.
\<close>

theorem sibling_masks_not_processed_counterexample:
  "quantify_mask id ''dir1'' ''locs.hdf5'' [(Finite (1 / 2), Finite 1)] 1
       (''cell.png'', Picture [[0, 255], [255, 255]])
     = Inr [Plot ''dir1'' ''cell_FOV_mask_locs.png'',
            Csv ''dir1'' ''locscell.csv''
              \<lparr>mask_name = ''cell'', mask_area_px = 3, mask_area_um = 3 / 10000, cluster_count = 1,
               cluster_count_per_area = Finite (10000 / 3), n_clusters = 1\<rparr>]
   \<and> run_quantify_clusters id example_fs ''dir1'' [] = (Some UnidentifiedImageError, [])
   \<and> main id example_fs [''dir2''] []
     = (None, [Plot ''dir2'' ''cell_FOV_mask_locs.png'',
            Csv ''dir2'' ''locscell.csv''
              \<lparr>mask_name = ''cell'', mask_area_px = 3, mask_area_um = 3 / 10000, cluster_count = 1,
               cluster_count_per_area = Finite (10000 / 3), n_clusters = 1\<rparr>])
   \<and> main id example_fs [''dir1'', ''dir2''] [] = (Some UnidentifiedImageError, [])"
  by code_simp

subsection \<open>What the engine functions leave unchanged\<close>

lemma take_frame:
  assumes "take (length s) s' = s" and "r < length s"
  shows "r < length s' \<and> s' ! r = s ! r"
proof -
  from assms(1) have "length (take (length s) s') = length s" by simp
  then have le: "length s \<le> length s'" by simp
  have "take (length s) s' ! r = s' ! r"
    using assms(2) by simp
  with assms le show ?thesis by simp
qed

lemma load_array_frame:
  "take (length s) s' = s \<Longrightarrow> load_array s r = Inr a \<Longrightarrow> load_array s' r = Inr a"
  using take_frame [of s s' r]
  by (auto simp: load_array_def split: if_splits)

lemma load_coords_frame:
  "take (length s) s' = s \<Longrightarrow> load_coords s r = Inr a \<Longrightarrow> load_coords s' r = Inr a"
  using take_frame [of s s' r]
  by (auto simp: load_coords_def split: if_splits)

lemma get_mask_area_st_frame: "take (length s) (snd (get_mask_area_st mask_ref s)) = s"
  by (simp add: get_mask_area_st_def alloc_def Let_def split: sum.splits)

lemma get_mask_area_st_result:
  "load_array s mask_ref = Inr msk \<Longrightarrow> fst (get_mask_area_st mask_ref s) = Inr (get_mask_area msk)"
  by (simp add: get_mask_area_st_def alloc_def load_array_def get_mask_area_def Let_def)

lemma list_append_length: "length (list_append r v s) = length s"
  by (simp add: list_append_def split: obj.splits)

lemma list_append_take: "take r (list_append r v s) = take r s"
  by (simp add: list_append_def split: obj.splits)

lemma cluster_loop_st_frame:
  "length (snd (cluster_loop_st mask_ref locs_ref pts count s)) = length s
   \<and> take locs_ref (snd (cluster_loop_st mask_ref locs_ref pts count s)) = take locs_ref s"
proof (induction pts arbitrary: count s)
  case Nil
  show ?case by simp
next
  case (Cons xy rest)
  show ?case
    using Cons.IH [of "count + 1" "list_append locs_ref (x, y) s" for x y] Cons.IH [of count s]
    by (simp add: list_append_length list_append_take split: sum.splits)
qed

lemma get_cluster_count_st_frame:
  "take (length s) (snd (get_cluster_count_st mask_ref xy_ref s)) = s"
proof (cases "load_coords (s @ [PyList []]) xy_ref")
  case (Inl e)
  then show ?thesis
    by (simp add: get_cluster_count_st_def alloc_def)
next
  case (Inr pts)
  obtain res s'' where
    run: "cluster_loop_st mask_ref (length s) pts 0 (s @ [PyList []]) = (res, s'')"
    by (cases "cluster_loop_st mask_ref (length s) pts 0 (s @ [PyList []])")
  from cluster_loop_st_frame [of mask_ref "length s" pts 0 "s @ [PyList []]"] run
  have "take (length s) s'' = s" by simp
  with Inr run show ?thesis
    by (cases res) (simp_all add: get_cluster_count_st_def alloc_def)
qed

lemma cluster_loop_st_result:
  assumes "load_array s mask_ref = Inr msk" and "locs_ref < length s" and "s ! locs_ref = PyList locs"
  shows "map_sum id fst (cluster_loop msk pts count locs)
           = fst (cluster_loop_st mask_ref locs_ref pts count s)
         \<and> (\<forall>cnt out. cluster_loop msk pts count locs = Inr (cnt, out) \<longrightarrow>
               snd (cluster_loop_st mask_ref locs_ref pts count s) ! locs_ref = PyList out)"
  using assms
proof (induction pts arbitrary: count locs s)
  case Nil
  then show ?case by simp
next
  case (Cons xy rest)
  have ne: "mask_ref \<noteq> locs_ref"
    using Cons.prems by (auto simp: load_array_def split: if_splits)
  have app: "load_array (list_append locs_ref v s) mask_ref = Inr msk
      \<and> locs_ref < length (list_append locs_ref v s)
      \<and> list_append locs_ref v s ! locs_ref = PyList (locs @ [v])" for v
    using Cons.prems ne by (auto simp: list_append_def load_array_def split: if_splits)
  show ?case
    using Cons.prems(1)
      Cons.IH [of "list_append locs_ref (x, y) s" "locs @ [(x, y)]" "count + 1" for x y] app
      Cons.IH [OF Cons.prems, of count]
    by (simp split: sum.splits)
qed

text \<open>
  Claim C9. \<open>get_mask_area\<close> and \<open>get_cluster_count\<close> leave every object that was in
  the store before the call as it was: the store after the call, cut to its length before
  the call, is the store before the call. So the mask array and the coordinate array
  read the same after either call as before, and the results are those of the functions
  on the values: the new objects are the binarised array of \<open>get_mask_area\<close> and the
  list \<open>locs_mask\<close> of \<open>get_cluster_count\<close>.
\<close>

theorem engine_leaves_inputs_unchanged:
  "take (length s) (snd (get_mask_area_st mask_ref s)) = s
   \<and> take (length s) (snd (get_cluster_count_st mask_ref xy_ref s)) = s
   \<and> (load_array s mask_ref = Inr msk \<and> load_coords s xy_ref = Inr clusters_xy \<longrightarrow>
         load_array (snd (get_mask_area_st mask_ref s)) mask_ref = Inr msk
       \<and> load_array (snd (get_cluster_count_st mask_ref xy_ref s)) mask_ref = Inr msk
       \<and> load_coords (snd (get_cluster_count_st mask_ref xy_ref s)) xy_ref = Inr clusters_xy
       \<and> fst (get_mask_area_st mask_ref s) = Inr (get_mask_area msk)
       \<and> map_sum id fst (fst (get_cluster_count_st mask_ref xy_ref s))
           = map_sum id fst (get_cluster_count msk clusters_xy)
       \<and> (\<forall>cnt locs. get_cluster_count msk clusters_xy = Inr (cnt, locs) \<longrightarrow>
             snd (get_cluster_count_st mask_ref xy_ref s) ! length s = PyList locs))"
proof -
  have f1: "take (length s) (snd (get_mask_area_st mask_ref s)) = s"
    by (rule get_mask_area_st_frame)
  have f2: "take (length s) (snd (get_cluster_count_st mask_ref xy_ref s)) = s"
    by (rule get_cluster_count_st_frame)
  have res: "map_sum id fst (fst (get_cluster_count_st mask_ref xy_ref s))
           = map_sum id fst (get_cluster_count msk clusters_xy)
       \<and> (\<forall>cnt locs. get_cluster_count msk clusters_xy = Inr (cnt, locs) \<longrightarrow>
             snd (get_cluster_count_st mask_ref xy_ref s) ! length s = PyList locs)"
    if a: "load_array s mask_ref = Inr msk" and c: "load_coords s xy_ref = Inr clusters_xy"
  proof -
    let ?s = "s @ [PyList []]"
    have ext: "take (length s) ?s = s" by simp
    have a': "load_array ?s mask_ref = Inr msk"
      using load_array_frame [OF ext a] .
    have c': "load_coords ?s xy_ref = Inr clusters_xy"
      using load_coords_frame [OF ext c] .
    have l: "length s < length ?s" "?s ! length s = PyList []" by simp_all
    from cluster_loop_st_result [OF a' l, of clusters_xy 0] c' show ?thesis
      by (cases "cluster_loop_st mask_ref (length s) clusters_xy 0 ?s";
          cases "cluster_loop msk clusters_xy 0 []")
        (auto simp: get_cluster_count_st_def get_cluster_count_def alloc_def split: sum.splits)
  qed
  from f1 f2 res show ?thesis
    using load_array_frame [OF f1] load_array_frame [OF f2] load_coords_frame [OF f2]
      get_mask_area_st_result [of s mask_ref msk]
    by blast
qed

theorem engine_leaves_inputs_unchanged_witness:
  "load_array [Array [[0, 7], [5, 0]], Coords [(Finite 0, Finite 1), (Finite 0, Finite 0)]] 0
     = Inr [[0, 7], [5, 0]]
   \<and> load_coords [Array [[0, 7], [5, 0]], Coords [(Finite 0, Finite 1), (Finite 0, Finite 0)]] 1
     = Inr [(Finite 0, Finite 1), (Finite 0, Finite 0)]
   \<and> get_mask_area_st 0 [Array [[0, 7], [5, 0]], Coords [(Finite 0, Finite 1), (Finite 0, Finite 0)]]
     = (Inr (2, 1 / 5000),
        [Array [[0, 7], [5, 0]], Coords [(Finite 0, Finite 1), (Finite 0, Finite 0)],
         Array [[0, 1], [1, 0]]])
   \<and> get_cluster_count_st 0 1 [Array [[0, 7], [5, 0]], Coords [(Finite 0, Finite 1), (Finite 0, Finite 0)]]
     = (Inr (1, 2),
        [Array [[0, 7], [5, 0]], Coords [(Finite 0, Finite 1), (Finite 0, Finite 0)],
         PyList [(0, 1)]])
   \<and> fst (get_mask_area_st 0 [Array [[0, 7], [5, 0]], Coords [(Finite 0, Finite 1), (Finite 0, Finite 0)]])
     = Inr (get_mask_area [[0, 7], [5, 0]])"
proof -
  let ?s = "[Array [[0, 7], [5, 0]], Coords [(Finite 0, Finite 1), (Finite 0, Finite 0)]]"
  have a: "load_array ?s 0 = Inr [[0, 7], [5, 0]]"
    by code_simp
  have c: "load_coords ?s 1 = Inr [(Finite 0, Finite 1), (Finite 0, Finite 0)]"
    by code_simp
  have r1: "get_mask_area_st 0 ?s = (Inr (2, 1 / 5000), ?s @ [Array [[0, 1], [1, 0]]])"
    by code_simp
  have r2: "get_cluster_count_st 0 1 ?s = (Inr (1, 2), ?s @ [PyList [(0, 1)]])"
    by code_simp
  show ?thesis
    using a c r1 r2
      engine_leaves_inputs_unchanged [of ?s 0 1 "[[0, 7], [5, 0]]" "[(Finite 0, Finite 1), (Finite 0, Finite 0)]"]
    by simp
qed


end
